theory Spec2Isabelle
  imports Main "HOL-Library.Word"
begin

section \<open>The contextvars primitives used by \<^verbatim>\<open>spyglass/runtime/context.py\<close>\<close>

text \<open>
  The module keeps two module-level \<^verbatim>\<open>ContextVar[Optional[str]]\<close> objects and wraps
  their \<^verbatim>\<open>get\<close>, \<^verbatim>\<open>set\<close> and \<^verbatim>\<open>reset\<close> methods. The values are
  \<^verbatim>\<open>Optional[str]\<close>: \<open>None\<close> is Python's \<^verbatim>\<open>None\<close>, \<open>Some s\<close> a string.
\<close>

type_synonym pyval = "string option"

text \<open>
  The exceptions that can occur: the three that the interpreter's \<^verbatim>\<open>ContextVar\<close>
  methods raise, and any other exception, which only the body of a \<^verbatim>\<open>with\<close> block
  can raise.
\<close>

datatype exn = LookupError | RuntimeError | ValueError | Exception string

text \<open>
  A \<^verbatim>\<open>ContextVar\<close> is identified by its name; \<open>var_default = None\<close> is a variable
  created without a default, \<open>var_default = Some d\<close> one created with \<^verbatim>\<open>default=d\<close>.
\<close>

record contextvar =
  var_name :: string
  var_default :: "pyval option"

text \<open>
  The current \<^verbatim>\<open>Context\<close> object of the running task: its identity and its mapping
  from variables to values. A variable that was never set has no entry.
\<close>

record pyctx =
  ctx_ident :: nat
  ctx_vars :: "string \<rightharpoonup> pyval"

text \<open>
  A \<^verbatim>\<open>Token\<close>: the Context and the variable it was created by, the value the
  variable had before (\<open>None\<close> is \<^verbatim>\<open>Token.MISSING\<close>), and the flag that
  \<^verbatim>\<open>reset\<close> sets on first use.
\<close>

record token =
  tok_ctx :: nat
  tok_var :: string
  tok_oldval :: "pyval option"
  tok_used :: bool

text \<open>\<^verbatim>\<open>var.get()\<close>: the value in the current Context, else the default, else LookupError.\<close>

definition ContextVar_get :: "contextvar \<Rightarrow> pyctx \<Rightarrow> exn + pyval" where
  "ContextVar_get var c =
     (case ctx_vars c (var_name var) of
        Some v \<Rightarrow> Inr v
      | None \<Rightarrow> (case var_default var of Some d \<Rightarrow> Inr d | None \<Rightarrow> Inl LookupError))"

text \<open>\<^verbatim>\<open>var.set(value)\<close>: binds the variable and returns a fresh token holding the old binding.\<close>

definition ContextVar_set :: "contextvar \<Rightarrow> pyval \<Rightarrow> pyctx \<Rightarrow> token \<times> pyctx" where
  "ContextVar_set var v c =
     (\<lparr>tok_ctx = ctx_ident c, tok_var = var_name var,
       tok_oldval = ctx_vars c (var_name var), tok_used = False\<rparr>,
      c\<lparr>ctx_vars := (ctx_vars c)(var_name var \<mapsto> v)\<rparr>)"

text \<open>
  \<^verbatim>\<open>var.reset(token)\<close>, with the interpreter's checks in their order: a used token is
  a RuntimeError, a token of another variable or of another Context a ValueError. Then
  the token is marked used, and the variable is unbound when the old value is MISSING
  (a LookupError when it is not bound), and bound to the old value otherwise. The token
  is returned as the call leaves it.
\<close>

definition ContextVar_reset :: "contextvar \<Rightarrow> token \<Rightarrow> pyctx \<Rightarrow> token \<times> (exn + pyctx)" where
  "ContextVar_reset var tok c =
     (if tok_used tok then (tok, Inl RuntimeError)
      else if tok_var tok \<noteq> var_name var then (tok, Inl ValueError)
      else if tok_ctx tok \<noteq> ctx_ident c then (tok, Inl ValueError)
      else (tok\<lparr>tok_used := True\<rparr>,
            (case tok_oldval tok of
               None \<Rightarrow>
                 (if ctx_vars c (var_name var) = None then Inl LookupError
                  else Inr (c\<lparr>ctx_vars := (ctx_vars c)(var_name var := None)\<rparr>))
             | Some old \<Rightarrow> Inr (c\<lparr>ctx_vars := (ctx_vars c)(var_name var \<mapsto> old)\<rparr>))))"

section \<open>\<^verbatim>\<open>spyglass/runtime/context.py\<close>\<close>

definition TRACE_ID :: contextvar where
  "TRACE_ID = \<lparr>var_name = ''spyglass_trace_id'', var_default = Some None\<rparr>"

definition SPAN_ID :: contextvar where
  "SPAN_ID = \<lparr>var_name = ''spyglass_span_id'', var_default = Some None\<rparr>"

definition get_trace_id :: "pyctx \<Rightarrow> exn + pyval" where
  "get_trace_id c = ContextVar_get TRACE_ID c"

definition get_span_id :: "pyctx \<Rightarrow> exn + pyval" where
  "get_span_id c = ContextVar_get SPAN_ID c"

definition set_trace_id :: "pyval \<Rightarrow> pyctx \<Rightarrow> token \<times> pyctx" where
  "set_trace_id v c = ContextVar_set TRACE_ID v c"

definition set_span_id :: "pyval \<Rightarrow> pyctx \<Rightarrow> token \<times> pyctx" where
  "set_span_id v c = ContextVar_set SPAN_ID v c"

definition reset_trace_id :: "token \<Rightarrow> pyctx \<Rightarrow> token \<times> (exn + pyctx)" where
  "reset_trace_id tok c = ContextVar_reset TRACE_ID tok c"

definition reset_span_id :: "token \<Rightarrow> pyctx \<Rightarrow> token \<times> (exn + pyctx)" where
  "reset_span_id tok c = ContextVar_reset SPAN_ID tok c"

text \<open>
  \<^verbatim>\<open>use_span\<close> is a generator under \<^verbatim>\<open>@contextmanager\<close>. Its two locals live in
  the generator's frame from the \<^verbatim>\<open>yield\<close> to the \<^verbatim>\<open>finally\<close> block.
\<close>

record frame =
  ttoken :: "token option"
  stoken :: "token option"

text \<open>
  The code up to \<^verbatim>\<open>yield\<close>: what entering the \<^verbatim>\<open>with\<close> block runs. A variable
  is set only when its argument is not \<^verbatim>\<open>None\<close>. \<^verbatim>\<open>ContextVar.set\<close> raises
  nothing, so the \<^verbatim>\<open>try\<close> block always reaches the \<^verbatim>\<open>yield\<close>.
\<close>

definition use_span_enter :: "pyval \<Rightarrow> pyval \<Rightarrow> pyctx \<Rightarrow> frame \<times> pyctx" where
  "use_span_enter trace_id span_id c =
     (let (tt, c1) = (if trace_id \<noteq> None then apfst Some (set_trace_id trace_id c)
                      else (None, c));
          (st, c2) = (if span_id \<noteq> None then apfst Some (set_span_id span_id c1)
                      else (None, c1))
      in (\<lparr>ttoken = tt, stoken = st\<rparr>, c2))"

text \<open>
  The \<^verbatim>\<open>finally\<close> block: the span token is reset first, then the trace token. An
  exception of the first reset leaves the block at once.
\<close>

definition use_span_exit :: "frame \<Rightarrow> pyctx \<Rightarrow> exn option \<times> pyctx" where
  "use_span_exit fr c =
     (case (case stoken fr of None \<Rightarrow> Inr c | Some tk \<Rightarrow> snd (reset_span_id tk c)) of
        Inl e \<Rightarrow> (Some e, c)
      | Inr c1 \<Rightarrow>
          (case (case ttoken fr of None \<Rightarrow> Inr c1 | Some tk \<Rightarrow> snd (reset_trace_id tk c1)) of
             Inl e \<Rightarrow> (Some e, c1)
           | Inr c2 \<Rightarrow> (None, c2)))"

text \<open>
  The statement \<^verbatim>\<open>with use_span(trace_id, span_id): body\<close>. A body takes the Context
  it starts in and returns the exception it raised, if any, with the Context it left.
  The \<^verbatim>\<open>finally\<close> block runs on both paths; the generator catches nothing, so the
  body's exception goes on to the caller unless the \<^verbatim>\<open>finally\<close> block raises itself.
\<close>

type_synonym body = "pyctx \<Rightarrow> exn option \<times> pyctx"

definition use_span :: "pyval \<Rightarrow> pyval \<Rightarrow> body \<Rightarrow> body" where
  "use_span trace_id span_id body c =
     (let (fr, c1) = use_span_enter trace_id span_id c;
          (raised, c2) = body c1;
          (failed, c3) = use_span_exit fr c2
      in (case failed of Some e \<Rightarrow> (Some e, c3) | None \<Rightarrow> (raised, c3)))"


text \<open>
  A token that \<^verbatim>\<open>var.reset\<close> accepts in a Context: unused, created by this variable
  in this Context, and, when it holds MISSING, the variable is bound.
\<close>

definition valid_token :: "contextvar \<Rightarrow> token \<Rightarrow> pyctx \<Rightarrow> bool" where
  "valid_token var tok c =
     (\<not> tok_used tok \<and> tok_var tok = var_name var \<and> tok_ctx tok = ctx_ident c \<and>
      (tok_oldval tok = None \<longrightarrow> ctx_vars c (var_name var) \<noteq> None))"

text \<open>The tokens held by an activation are valid in the Context the scope is left in.\<close>

definition frame_valid :: "frame \<Rightarrow> pyctx \<Rightarrow> bool" where
  "frame_valid fr c =
     ((case stoken fr of None \<Rightarrow> True | Some tk \<Rightarrow> valid_token SPAN_ID tk c) \<and>
      (case ttoken fr of None \<Rightarrow> True | Some tk \<Rightarrow> valid_token TRACE_ID tk c))"

section \<open>The span-id generator\<close>

text \<open>
  \<^verbatim>\<open>spyglass/runtime/ids.py\<close> is not among the sources; only its test
  \<^verbatim>\<open>tests/test_runtime_ids.py\<close> and its callers are. The generator is modelled
  from the specification, and the test's two checks from the test.
\<close>

text \<open>
  Modelled from the spec: the lowercase hexadecimal digit of a value below 16, as used by
  the missing \<^verbatim>\<open>span_id\<close>: the characters \<^verbatim>\<open>0\<close> to \<^verbatim>\<open>9\<close> (codes 48 to 57) and
  \<^verbatim>\<open>a\<close> to \<^verbatim>\<open>f\<close> (codes 97 to 102).
\<close>

definition hexdigit :: "nat \<Rightarrow> char" where
  "hexdigit d = (if d < 10 then char_of (48 + d) else char_of (87 + d))"

text \<open>
  Modelled from the spec: the fixed-width rendering of the missing \<^verbatim>\<open>span_id\<close>,
  the \<open>w\<close> lowest hexadecimal digits of \<open>n\<close>, most significant first.
\<close>

fun hex_digits :: "nat \<Rightarrow> nat \<Rightarrow> string" where
  "hex_digits 0 n = []"
| "hex_digits (Suc w) n = hex_digits w (n div 16) @ [hexdigit (n mod 16)]"

text \<open>
  Modelled from the spec: the missing \<^verbatim>\<open>span_id\<close> of \<^verbatim>\<open>spyglass/runtime/ids.py\<close>,
  "fixed 16 lowercase-hex-digit representation of a 64-bit value, never returns the
  all-zero value". The 64-bit value \<open>r\<close> drawn from the random source is a parameter.
  The specification does not say how a zero draw is avoided; here it is replaced by 1.
\<close>

definition span_id :: "64 word \<Rightarrow> string" where
  "span_id r = hex_digits 16 (unat (if r = 0 then 1 else r))"

text \<open>
  The test's pattern \<^verbatim>\<open>HEX16 = re.compile(r"^[0-9a-f]{16}$")\<close>, on strings without a
  newline.
\<close>

definition is_lower_hex :: "char \<Rightarrow> bool" where
  "is_lower_hex ch =
     (let k = of_char ch :: nat in (48 \<le> k \<and> k \<le> 57) \<or> (97 \<le> k \<and> k \<le> 102))"

definition HEX16_match :: "string \<Rightarrow> bool" where
  "HEX16_match s = (length s = 16 \<and> list_all is_lower_hex s)"

text \<open>
  The test's \<^verbatim>\<open>int(s, 16)\<close>, on strings of lowercase hexadecimal digits; on the empty
  string and at any other character the result is \<open>None\<close>.
\<close>

definition digit_value :: "char \<Rightarrow> nat option" where
  "digit_value ch =
     (let k = of_char ch :: nat
      in if 48 \<le> k \<and> k \<le> 57 then Some (k - 48)
         else if 97 \<le> k \<and> k \<le> 102 then Some (k - 87)
         else None)"

fun hex_value_acc :: "nat \<Rightarrow> string \<Rightarrow> nat option" where
  "hex_value_acc a [] = Some a"
| "hex_value_acc a (ch # cs) =
     (case digit_value ch of None \<Rightarrow> None | Some d \<Rightarrow> hex_value_acc (16 * a + d) cs)"

definition hex_value :: "string \<Rightarrow> nat option" where
  "hex_value s = (if s = [] then None else hex_value_acc 0 s)"

section \<open>The collector's bounded queue\<close>

text \<open>
  \<^verbatim>\<open>spyglass/core/async_collector.py\<close> is not among the sources; only callers in the
  examples are. The queue is modelled from the specification, as the sequence of pending
  events, oldest first, under the operations that change it. Batching by
  \<^verbatim>\<open>batch_max\<close>, the timer and the sink are left out.
\<close>

datatype collector_error = Misconfiguration

text \<open>
  Modelled from the spec: the state of the missing \<^verbatim>\<open>AsyncCollector\<close> that its queue
  depends on: the capacity \<^verbatim>\<open>queue_size\<close>, the pending events and whether
  \<^verbatim>\<open>close()\<close> was called.
\<close>

record 'e collector =
  queue_size :: nat
  queue :: "'e list"
  closed :: bool

text \<open>
  Modelled from the spec: the missing constructor; "invalid parameters (e.g., non-positive
  capacities) are rejected at construction time".
\<close>

definition new_collector :: "int \<Rightarrow> collector_error + 'e collector" where
  "new_collector n =
     (if n \<le> 0 then Inl Misconfiguration
      else Inr \<lparr>queue_size = nat n, queue = [], closed = False\<rparr>)"

text \<open>
  Modelled from the spec: the missing \<^verbatim>\<open>enqueue\<close>; "If the queue is at capacity,
  silently evicts the oldest queued event to make room", and "After \<^verbatim>\<open>close()\<close>,
  further \<^verbatim>\<open>enqueue\<close> calls are no-ops".
\<close>

definition enqueue :: "'e \<Rightarrow> 'e collector \<Rightarrow> 'e collector" where
  "enqueue ev col =
     (if closed col then col
      else if queue_size col \<le> length (queue col)
           then col\<lparr>queue := tl (queue col) @ [ev]\<rparr>
           else col\<lparr>queue := queue col @ [ev]\<rparr>)"

text \<open>
  Modelled from the spec: a flush of the missing background process, which "drains the
  queue"; the drained events are returned in queue order.
\<close>

definition flush :: "'e collector \<Rightarrow> 'e list \<times> 'e collector" where
  "flush col = (queue col, col\<lparr>queue := []\<rparr>)"

text \<open>
  Modelled from the spec: the missing \<^verbatim>\<open>close\<close>, which "drains all remaining queued
  events" and after which the collector accepts nothing.
\<close>

definition close :: "'e collector \<Rightarrow> 'e list \<times> 'e collector" where
  "close col = (queue col, col\<lparr>queue := [], closed := True\<rparr>)"

text \<open>Modelled from the spec: the three operations of the missing collector, as one step.\<close>

datatype 'e collector_op = Enqueue 'e | Flush | Close

fun apply_op :: "'e collector \<Rightarrow> 'e collector_op \<Rightarrow> 'e collector" where
  "apply_op col (Enqueue ev) = enqueue ev col"
| "apply_op col Flush = snd (flush col)"
| "apply_op col Close = snd (close col)"

text \<open>Modelled from the spec: enqueues in a row, with no flush between them.\<close>

definition enqueue_all :: "'e list \<Rightarrow> 'e collector \<Rightarrow> 'e collector" where
  "enqueue_all evs col = foldl (\<lambda>c ev. enqueue ev c) col evs"

text \<open>The queue's invariant: a positive capacity, and no more events than the capacity.\<close>

definition queue_inv :: "'e collector \<Rightarrow> bool" where
  "queue_inv col = (0 < queue_size col \<and> length (queue col) \<le> queue_size col)"

section \<open>Properties of the context module\<close>

lemmas ctx_defs =
  get_trace_id_def get_span_id_def set_trace_id_def set_span_id_def
  reset_trace_id_def reset_span_id_def ContextVar_get_def ContextVar_set_def
  ContextVar_reset_def TRACE_ID_def SPAN_ID_def

subsection \<open>Entering and leaving an activation\<close>

lemma var_names [simp]:
  "var_name TRACE_ID = ''spyglass_trace_id''" "var_name SPAN_ID = ''spyglass_span_id''"
  "var_default TRACE_ID = Some None" "var_default SPAN_ID = Some None"
  by (simp_all add: TRACE_ID_def SPAN_ID_def)

lemma valid_reset:
  "valid_token var tok c \<Longrightarrow>
   ContextVar_reset var tok c =
     (tok\<lparr>tok_used := True\<rparr>, Inr (c\<lparr>ctx_vars := (ctx_vars c)(var_name var := tok_oldval tok)\<rparr>))"
  by (auto simp: valid_token_def ContextVar_reset_def split: option.splits)

lemma enter_frame:
  assumes "use_span_enter t s c = (fr, c1)"
  shows "ttoken fr = (if t \<noteq> None then Some \<lparr>tok_ctx = ctx_ident c, tok_var = ''spyglass_trace_id'',
             tok_oldval = ctx_vars c ''spyglass_trace_id'', tok_used = False\<rparr> else None)"
    and "stoken fr = (if s \<noteq> None then Some \<lparr>tok_ctx = ctx_ident c, tok_var = ''spyglass_span_id'',
             tok_oldval = ctx_vars c ''spyglass_span_id'', tok_used = False\<rparr> else None)"
    and "ctx_ident c1 = ctx_ident c"
    and "ctx_vars c1 ''spyglass_trace_id'' = (if t \<noteq> None then Some t else ctx_vars c ''spyglass_trace_id'')"
    and "ctx_vars c1 ''spyglass_span_id'' = (if s \<noteq> None then Some s else ctx_vars c ''spyglass_span_id'')"
    and "n \<noteq> ''spyglass_trace_id'' \<Longrightarrow> n \<noteq> ''spyglass_span_id'' \<Longrightarrow> ctx_vars c1 n = ctx_vars c n"
  using assms
  by (auto simp: use_span_enter_def set_trace_id_def set_span_id_def ContextVar_set_def
           split: if_splits)

lemma exit_valid:
  assumes "frame_valid fr c"
  shows "use_span_exit fr c =
     (None, c\<lparr>ctx_vars := (\<lambda>n.
          if n = ''spyglass_trace_id'' then (case ttoken fr of None \<Rightarrow> ctx_vars c n | Some tk \<Rightarrow> tok_oldval tk)
          else if n = ''spyglass_span_id'' then (case stoken fr of None \<Rightarrow> ctx_vars c n | Some tk \<Rightarrow> tok_oldval tk)
          else ctx_vars c n)\<rparr>)"
proof -
  let ?c1 = "case stoken fr of None \<Rightarrow> c | Some tk \<Rightarrow> c\<lparr>ctx_vars := (ctx_vars c)(''spyglass_span_id'' := tok_oldval tk)\<rparr>"
  have s: "(case stoken fr of None \<Rightarrow> Inr c | Some tk \<Rightarrow> snd (reset_span_id tk c)) = Inr ?c1"
    using assms by (auto simp: frame_valid_def reset_span_id_def valid_reset split: option.splits)
  have v: "case ttoken fr of None \<Rightarrow> True | Some tk \<Rightarrow> valid_token TRACE_ID tk ?c1"
    using assms by (auto simp: frame_valid_def valid_token_def split: option.splits)
  let ?c2 = "case ttoken fr of None \<Rightarrow> ?c1 | Some tk \<Rightarrow> ?c1\<lparr>ctx_vars := (ctx_vars ?c1)(''spyglass_trace_id'' := tok_oldval tk)\<rparr>"
  have t: "(case ttoken fr of None \<Rightarrow> Inr ?c1 | Some tk \<Rightarrow> snd (reset_trace_id tk ?c1)) = Inr ?c2"
    using v by (auto simp: reset_trace_id_def valid_reset split: option.splits)
  have "use_span_exit fr c = (None, ?c2)"
    unfolding use_span_exit_def s using t by simp
  moreover have "?c2 = c\<lparr>ctx_vars := (\<lambda>n.
          if n = ''spyglass_trace_id'' then (case ttoken fr of None \<Rightarrow> ctx_vars c n | Some tk \<Rightarrow> tok_oldval tk)
          else if n = ''spyglass_span_id'' then (case stoken fr of None \<Rightarrow> ctx_vars c n | Some tk \<Rightarrow> tok_oldval tk)
          else ctx_vars c n)\<rparr>"
    by (auto simp: fun_eq_iff split: option.splits)
  ultimately show ?thesis by simp
qed

lemma enter_frame_valid:
  assumes "use_span_enter t s c = (fr, c1)"
  shows "frame_valid fr c1"
  using enter_frame[OF assms]
  by (auto simp: frame_valid_def valid_token_def split: option.splits)

text \<open>
  The tokens stay valid through any body that stays in the Context it started in and
  leaves every variable bound that was bound when it started.
\<close>

lemma frame_valid_after_body:
  assumes "use_span_enter t s c = (fr, c1)"
      and "ctx_ident c2 = ctx_ident c1"
      and "\<forall>n. ctx_vars c1 n \<noteq> None \<longrightarrow> ctx_vars c2 n \<noteq> None"
  shows "frame_valid fr c2"
  using enter_frame(1-5)[OF assms(1)] assms(2,3)
  by (auto simp: frame_valid_def valid_token_def split: option.splits if_splits)

text \<open>An activation around a body that leaves the Context alone leaves the Context alone.\<close>

lemma use_span_skip: "use_span t s (Pair x) c = (x, c)"
proof -
  obtain fr c1 where e: "use_span_enter t s c = (fr, c1)" by fastforce
  have "ctx_vars (snd (use_span_exit fr c1)) = ctx_vars c"
    using enter_frame[OF e] by (auto simp: exit_valid[OF enter_frame_valid[OF e]] fun_eq_iff)
  moreover have "ctx_ident (snd (use_span_exit fr c1)) = ctx_ident c"
    using enter_frame(3)[OF e] by (simp add: exit_valid[OF enter_frame_valid[OF e]])
  ultimately have "snd (use_span_exit fr c1) = c" by simp
  then show ?thesis
    using e by (simp add: use_span_def exit_valid[OF enter_frame_valid[OF e]])
qed

lemma get_trace_id_eq:
  "get_trace_id c =
     Inr (case ctx_vars c ''spyglass_trace_id'' of None \<Rightarrow> None | Some v \<Rightarrow> v)"
  by (simp add: get_trace_id_def ContextVar_get_def split: option.splits)

lemma get_span_id_eq:
  "get_span_id c =
     Inr (case ctx_vars c ''spyglass_span_id'' of None \<Rightarrow> None | Some v \<Rightarrow> v)"
  by (simp add: get_span_id_def ContextVar_get_def split: option.splits)

lemma reset_other_var:
  "snd (ContextVar_reset var tok c) = Inr c' \<Longrightarrow> n \<noteq> var_name var \<Longrightarrow>
   ctx_vars c' n = ctx_vars c n"
  by (auto simp: ContextVar_reset_def split: if_splits option.splits)

subsection \<open>Activation, restoration and independence\<close>

text \<open>
  C1. The tokens of an activation belong to the Context it was entered in, and
  \<^verbatim>\<open>ContextVar.reset\<close> refuses them anywhere else. So the restoration holds for a scope
  that is left where the tokens are still valid, which is the case when it is left in the
  Context it was entered in. Take any Context \<open>c0\<close> before the activation, the frame
  \<open>fr\<close> and the Context \<open>c1\<close> that entering gives, and any body, which leaves the Context
  \<open>c2\<close> and either completes (\<open>raised = None\<close>) or raises (\<open>raised = Some x\<close>), with
  the activation's tokens valid in \<open>c2\<close>. Then the \<^verbatim>\<open>finally\<close> block raises nothing,
  the statement ends as the body did, and in the final Context \<open>c3\<close> each variable whose
  argument was not \<^verbatim>\<open>None\<close> has the binding it had in \<open>c0\<close>, while a variable whose
  argument was \<^verbatim>\<open>None\<close> is changed neither on entry (\<open>c1\<close> against \<open>c0\<close>) nor on exit
  (\<open>c3\<close> against \<open>c2\<close>).
\<close>

theorem use_span_restores_set_fields:
  assumes "use_span_enter tid sid c0 = (fr, c1)"
      and "body c1 = (raised, c2)"
      and "use_span_exit fr c2 = (failed, c3)"
      and "frame_valid fr c2"
  shows "failed = None \<and> use_span tid sid body c0 = (raised, c3)
       \<and> (tid \<noteq> None \<longrightarrow>
            ctx_vars c3 (var_name TRACE_ID) = ctx_vars c0 (var_name TRACE_ID)
            \<and> get_trace_id c3 = get_trace_id c0)
       \<and> (tid = None \<longrightarrow>
            ctx_vars c1 (var_name TRACE_ID) = ctx_vars c0 (var_name TRACE_ID)
            \<and> ctx_vars c3 (var_name TRACE_ID) = ctx_vars c2 (var_name TRACE_ID))
       \<and> (sid \<noteq> None \<longrightarrow>
            ctx_vars c3 (var_name SPAN_ID) = ctx_vars c0 (var_name SPAN_ID)
            \<and> get_span_id c3 = get_span_id c0)
       \<and> (sid = None \<longrightarrow>
            ctx_vars c1 (var_name SPAN_ID) = ctx_vars c0 (var_name SPAN_ID)
            \<and> ctx_vars c3 (var_name SPAN_ID) = ctx_vars c2 (var_name SPAN_ID))"
proof -
  note ex = exit_valid[OF assms(4)]
  have f: "failed = None" and c3: "c3 = snd (use_span_exit fr c2)"
    using assms(3) ex by simp_all
  have u: "use_span tid sid body c0 = (raised, c3)"
    using assms(1,2,3) f by (simp add: use_span_def)
  have t: "ctx_vars c3 ''spyglass_trace_id'' =
      (case ttoken fr of None \<Rightarrow> ctx_vars c2 ''spyglass_trace_id'' | Some tk \<Rightarrow> tok_oldval tk)"
    unfolding c3 ex by simp
  have s: "ctx_vars c3 ''spyglass_span_id'' =
      (case stoken fr of None \<Rightarrow> ctx_vars c2 ''spyglass_span_id'' | Some tk \<Rightarrow> tok_oldval tk)"
    unfolding c3 ex by simp
  show ?thesis
    using f u t s enter_frame(1,2,4,5)[OF assms(1)]
    by (simp add: get_trace_id_eq get_span_id_eq)
qed

theorem use_span_restores_set_fields_witness:
  "frame_valid
     (fst (use_span_enter (Some ''t1'') None
        \<lparr>ctx_ident = 0, ctx_vars = [''spyglass_span_id'' \<mapsto> Some ''s0'']\<rparr>))
     (snd (set_span_id (Some ''s9'') (snd (use_span_enter (Some ''t1'') None
        \<lparr>ctx_ident = 0, ctx_vars = [''spyglass_span_id'' \<mapsto> Some ''s0'']\<rparr>))))
   \<and> fst (use_span (Some ''t1'') None
          (\<lambda>c. (Some (Exception ''boom''), snd (set_span_id (Some ''s9'') c)))
          \<lparr>ctx_ident = 0, ctx_vars = [''spyglass_span_id'' \<mapsto> Some ''s0'']\<rparr>)
       = Some (Exception ''boom'')
   \<and> ctx_vars (snd (use_span (Some ''t1'') None
          (\<lambda>c. (Some (Exception ''boom''), snd (set_span_id (Some ''s9'') c)))
          \<lparr>ctx_ident = 0, ctx_vars = [''spyglass_span_id'' \<mapsto> Some ''s0'']\<rparr>))
        ''spyglass_trace_id'' = None
   \<and> ctx_vars (snd (use_span (Some ''t1'') None
          (\<lambda>c. (Some (Exception ''boom''), snd (set_span_id (Some ''s9'') c)))
          \<lparr>ctx_ident = 0, ctx_vars = [''spyglass_span_id'' \<mapsto> Some ''s0'']\<rparr>))
        ''spyglass_span_id'' = Some (Some ''s9'')"
proof -
  let ?c0 = "\<lparr>ctx_ident = 0, ctx_vars = [''spyglass_span_id'' \<mapsto> Some ''s0'']\<rparr>"
  let ?b = "\<lambda>c. (Some (Exception ''boom''), snd (set_span_id (Some ''s9'') c))"
  let ?e = "use_span_enter (Some ''t1'') None ?c0"
  let ?c2 = "snd (set_span_id (Some ''s9'') (snd ?e))"
  have e: "?e = (fst ?e, snd ?e)" by simp
  have b: "?b (snd ?e) = (Some (Exception ''boom''), ?c2)" by simp
  have x: "use_span_exit (fst ?e) ?c2 =
      (fst (use_span_exit (fst ?e) ?c2), snd (use_span_exit (fst ?e) ?c2))" by simp
  have v: "frame_valid (fst ?e) ?c2"
    by (simp add: frame_valid_def valid_token_def use_span_enter_def ctx_defs)
  have c2: "ctx_vars ?c2 ''spyglass_span_id'' = Some (Some ''s9'')"
    by (simp add: set_span_id_def ContextVar_set_def SPAN_ID_def)
  from use_span_restores_set_fields[where body = ?b, OF e b x v] v c2 show ?thesis
    by (simp add: TRACE_ID_def SPAN_ID_def)
qed

text \<open>
  Without that condition the restoration fails. A body that is resumed in a copy of the
  Context, as a generator suspended inside the \<^verbatim>\<open>with\<close> block and closed under
  \<^verbatim>\<open>copy_context().run\<close> is, leaves the scope in Context 1 while the tokens are of
  Context 0: the first reset raises ValueError, the body completed normally but the
  statement raises, and both variables keep the activated values instead of the unset
  state from before the activation.
\<close>

theorem use_span_restores_set_fields_counterexample:
  "use_span (Some ''t1'') (Some ''s1'') (\<lambda>c. (None, c\<lparr>ctx_ident := 1\<rparr>))
      \<lparr>ctx_ident = 0, ctx_vars = Map.empty\<rparr>
     = (Some ValueError,
        \<lparr>ctx_ident = 1,
         ctx_vars = [''spyglass_trace_id'' \<mapsto> Some ''t1'', ''spyglass_span_id'' \<mapsto> Some ''s1'']\<rparr>)
   \<and> get_trace_id \<lparr>ctx_ident = 0, ctx_vars = Map.empty\<rparr> = Inr None
   \<and> get_trace_id (snd (use_span (Some ''t1'') (Some ''s1'') (\<lambda>c. (None, c\<lparr>ctx_ident := 1\<rparr>))
      \<lparr>ctx_ident = 0, ctx_vars = Map.empty\<rparr>)) = Inr (Some ''t1'')
   \<and> get_span_id \<lparr>ctx_ident = 0, ctx_vars = Map.empty\<rparr> = Inr None
   \<and> get_span_id (snd (use_span (Some ''t1'') (Some ''s1'') (\<lambda>c. (None, c\<lparr>ctx_ident := 1\<rparr>))
      \<lparr>ctx_ident = 0, ctx_vars = Map.empty\<rparr>)) = Inr (Some ''s1'')"
  by (simp add: use_span_def use_span_enter_def use_span_exit_def ctx_defs)

text \<open>
  C2. In the Context that entering an activation gives, \<^verbatim>\<open>get_trace_id()\<close> returns the
  activated trace id when that argument is not \<^verbatim>\<open>None\<close>, and what it returned before
  the activation when it is \<^verbatim>\<open>None\<close>; likewise \<^verbatim>\<open>get_span_id()\<close>.
\<close>

theorem use_span_getters_while_held:
  assumes "use_span_enter tid sid c0 = (fr, c1)"
  shows "get_trace_id c1 = (if tid \<noteq> None then Inr tid else get_trace_id c0)
       \<and> get_span_id c1 = (if sid \<noteq> None then Inr sid else get_span_id c0)"
  using enter_frame(4,5)[OF assms] by (simp add: get_trace_id_eq get_span_id_eq)

theorem use_span_getters_while_held_witness:
  "get_trace_id (snd (use_span_enter (Some ''t1'') None
      \<lparr>ctx_ident = 0, ctx_vars = [''spyglass_span_id'' \<mapsto> Some ''s0'']\<rparr>)) = Inr (Some ''t1'')
   \<and> get_span_id (snd (use_span_enter (Some ''t1'') None
      \<lparr>ctx_ident = 0, ctx_vars = [''spyglass_span_id'' \<mapsto> Some ''s0'']\<rparr>)) = Inr (Some ''s0'')"
proof -
  let ?c0 = "\<lparr>ctx_ident = 0, ctx_vars = [''spyglass_span_id'' \<mapsto> Some ''s0'']\<rparr>"
  let ?e = "use_span_enter (Some ''t1'') None ?c0"
  have e: "?e = (fst ?e, snd ?e)" by simp
  from use_span_getters_while_held[OF e] show ?thesis
    by (simp add: get_span_id_def ContextVar_get_def SPAN_ID_def)
qed



text \<open>
  C4. No operation of the module raises: both getters return a value in every Context,
  and \<^verbatim>\<open>None\<close> when the variable is not bound; a setter accepts every value,
  \<^verbatim>\<open>None\<close> included, the getter returns it afterwards and the token it hands back is
  valid; a reset with a valid token returns; and an activation entered and left around an
  empty body raises nothing.
\<close>

theorem context_operations_never_raise:
  "(\<exists>v. get_trace_id c = Inr v) \<and> (\<exists>v. get_span_id c = Inr v)
   \<and> (ctx_vars c (var_name TRACE_ID) = None \<longrightarrow> get_trace_id c = Inr None)
   \<and> (ctx_vars c (var_name SPAN_ID) = None \<longrightarrow> get_span_id c = Inr None)
   \<and> get_trace_id (snd (set_trace_id v c)) = Inr v
   \<and> get_span_id (snd (set_span_id v c)) = Inr v
   \<and> valid_token TRACE_ID (fst (set_trace_id v c)) (snd (set_trace_id v c))
   \<and> valid_token SPAN_ID (fst (set_span_id v c)) (snd (set_span_id v c))
   \<and> (valid_token TRACE_ID tok c \<longrightarrow> (\<exists>c'. snd (reset_trace_id tok c) = Inr c'))
   \<and> (valid_token SPAN_ID tok c \<longrightarrow> (\<exists>c'. snd (reset_span_id tok c) = Inr c'))
   \<and> fst (use_span tid sid (Pair None) c) = None"
proof -
  have 1: "get_trace_id (snd (set_trace_id v c)) = Inr v"
    by (simp add: get_trace_id_eq set_trace_id_def ContextVar_set_def)
  have 2: "get_span_id (snd (set_span_id v c)) = Inr v"
    by (simp add: get_span_id_eq set_span_id_def ContextVar_set_def)
  have 3: "valid_token TRACE_ID (fst (set_trace_id v c)) (snd (set_trace_id v c))"
    by (simp add: valid_token_def set_trace_id_def ContextVar_set_def)
  have 4: "valid_token SPAN_ID (fst (set_span_id v c)) (snd (set_span_id v c))"
    by (simp add: valid_token_def set_span_id_def ContextVar_set_def)
  have 5: "\<exists>c'. snd (reset_trace_id tok c) = Inr c'" if "valid_token TRACE_ID tok c"
    using that by (simp add: reset_trace_id_def valid_reset)
  have 6: "\<exists>c'. snd (reset_span_id tok c) = Inr c'" if "valid_token SPAN_ID tok c"
    using that by (simp add: reset_span_id_def valid_reset)
  have 7: "fst (use_span tid sid (Pair None) c) = None"
    by (simp add: use_span_skip)
  show ?thesis
    using 1 2 3 4 5 6 7 by (simp add: get_trace_id_eq get_span_id_eq)
qed

theorem context_operations_never_raise_witness:
  "ctx_vars \<lparr>ctx_ident = 0, ctx_vars = Map.empty\<rparr> (var_name TRACE_ID) = None
   \<and> ctx_vars \<lparr>ctx_ident = 0, ctx_vars = Map.empty\<rparr> (var_name SPAN_ID) = None
   \<and> get_trace_id \<lparr>ctx_ident = 0, ctx_vars = Map.empty\<rparr> = Inr None
   \<and> get_span_id \<lparr>ctx_ident = 0, ctx_vars = Map.empty\<rparr> = Inr None
   \<and> valid_token TRACE_ID
        \<lparr>tok_ctx = 0, tok_var = ''spyglass_trace_id'', tok_oldval = Some None, tok_used = False\<rparr>
        \<lparr>ctx_ident = 0, ctx_vars = Map.empty\<rparr>
   \<and> (\<exists>c'. snd (reset_trace_id
        \<lparr>tok_ctx = 0, tok_var = ''spyglass_trace_id'', tok_oldval = Some None, tok_used = False\<rparr>
        \<lparr>ctx_ident = 0, ctx_vars = Map.empty\<rparr>) = Inr c')"
proof -
  let ?tok = "\<lparr>tok_ctx = 0, tok_var = ''spyglass_trace_id'', tok_oldval = Some None, tok_used = False\<rparr>"
  let ?c = "\<lparr>ctx_ident = 0, ctx_vars = Map.empty\<rparr>"
  have v: "valid_token TRACE_ID ?tok ?c"
    by (simp add: valid_token_def TRACE_ID_def)
  from context_operations_never_raise[of ?c None ?tok None None] v show ?thesis
    by simp
qed

text \<open>
  C8. An activation with both arguments \<^verbatim>\<open>None\<close> sets nothing: entering leaves the
  Context as it is and holds no token, leaving does nothing and raises nothing, and the
  whole statement behaves as its body alone; so both getters return inside the scope and
  after it what they returned before.
\<close>

theorem use_span_none_identity:
  "use_span_enter None None c = (\<lparr>ttoken = None, stoken = None\<rparr>, c)
   \<and> use_span_exit \<lparr>ttoken = None, stoken = None\<rparr> c' = (None, c')
   \<and> use_span None None body c = body c
   \<and> get_trace_id (snd (use_span_enter None None c)) = get_trace_id c
   \<and> get_span_id (snd (use_span_enter None None c)) = get_span_id c
   \<and> use_span None None (\<lambda>c. (x, c)) c = (x, c)"
  by (simp add: use_span_enter_def use_span_exit_def use_span_def split: prod.splits)

text \<open>
  C9. When the body raises \<open>x\<close>, the statement never ends normally: \<^verbatim>\<open>use_span\<close>
  suppresses nothing. When moreover the activation's tokens are valid in the Context the
  body leaves, as they are when the scope is left in the Context it was entered in, the
  exception that reaches the caller is \<open>x\<close> itself, together with a Context in which
  every variable the activation set has its binding from before the activation.
\<close>

theorem use_span_propagates_exception:
  assumes "use_span_enter tid sid c0 = (fr, c1)"
      and "body c1 = (Some x, c2)"
      and "use_span_exit fr c2 = (failed, c3)"
  shows "fst (use_span tid sid body c0) \<noteq> None
       \<and> (frame_valid fr c2 \<longrightarrow>
            use_span tid sid body c0 = (Some x, c3)
            \<and> (tid \<noteq> None \<longrightarrow>
                 ctx_vars c3 (var_name TRACE_ID) = ctx_vars c0 (var_name TRACE_ID))
            \<and> (sid \<noteq> None \<longrightarrow>
                 ctx_vars c3 (var_name SPAN_ID) = ctx_vars c0 (var_name SPAN_ID)))"
proof -
  have "fst (use_span tid sid body c0) \<noteq> None"
    using assms by (simp add: use_span_def split: option.splits)
  moreover have "use_span tid sid body c0 = (Some x, c3)
       \<and> (tid \<noteq> None \<longrightarrow>
            ctx_vars c3 (var_name TRACE_ID) = ctx_vars c0 (var_name TRACE_ID))
       \<and> (sid \<noteq> None \<longrightarrow>
            ctx_vars c3 (var_name SPAN_ID) = ctx_vars c0 (var_name SPAN_ID))"
    if v: "frame_valid fr c2"
  proof -
    note ex = exit_valid[OF v]
    have f: "failed = None" and c3: "c3 = snd (use_span_exit fr c2)"
      using assms(3) ex by simp_all
    have u: "use_span tid sid body c0 = (Some x, c3)"
      using assms f by (simp add: use_span_def)
    have t: "ctx_vars c3 ''spyglass_trace_id'' =
        (case ttoken fr of None \<Rightarrow> ctx_vars c2 ''spyglass_trace_id'' | Some tk \<Rightarrow> tok_oldval tk)"
      unfolding c3 ex by simp
    have s: "ctx_vars c3 ''spyglass_span_id'' =
        (case stoken fr of None \<Rightarrow> ctx_vars c2 ''spyglass_span_id'' | Some tk \<Rightarrow> tok_oldval tk)"
      unfolding c3 ex by simp
    show ?thesis
      using u t s enter_frame(1,2)[OF assms(1)] by simp
  qed
  ultimately show ?thesis by blast
qed

theorem use_span_propagates_exception_witness:
  "frame_valid
     (fst (use_span_enter (Some ''t1'') (Some ''s1'') \<lparr>ctx_ident = 0, ctx_vars = Map.empty\<rparr>))
     (snd (use_span_enter (Some ''t1'') (Some ''s1'') \<lparr>ctx_ident = 0, ctx_vars = Map.empty\<rparr>))
   \<and> use_span (Some ''t1'') (Some ''s1'') (Pair (Some (Exception ''boom'')))
        \<lparr>ctx_ident = 0, ctx_vars = Map.empty\<rparr>
      = (Some (Exception ''boom''), \<lparr>ctx_ident = 0, ctx_vars = Map.empty\<rparr>)"
proof -
  let ?c0 = "\<lparr>ctx_ident = 0, ctx_vars = Map.empty\<rparr>"
  let ?e = "use_span_enter (Some ''t1'') (Some ''s1'') ?c0"
  have e: "?e = (fst ?e, snd ?e)" by simp
  have b: "Pair (Some (Exception ''boom'')) (snd ?e) = (Some (Exception ''boom''), snd ?e)"
    by simp
  have x: "use_span_exit (fst ?e) (snd ?e) =
      (fst (use_span_exit (fst ?e) (snd ?e)), snd (use_span_exit (fst ?e) (snd ?e)))" by simp
  have v: "frame_valid (fst ?e) (snd ?e)"
    by (simp add: frame_valid_def valid_token_def use_span_enter_def ctx_defs)
  have r: "snd (use_span_exit (fst ?e) (snd ?e)) = ?c0"
    by (simp add: use_span_exit_def use_span_enter_def ctx_defs)
  from use_span_propagates_exception[where body = "Pair (Some (Exception ''boom''))", OF e b x] v r show ?thesis
    by simp
qed

text \<open>
  Without that condition another exception reaches the caller. A body that raises after
  it was resumed in a copy of the Context leaves the scope in Context 1: the first reset
  in the \<^verbatim>\<open>finally\<close> block raises ValueError, which replaces the body's exception,
  and nothing is restored.
\<close>

theorem use_span_propagates_exception_counterexample:
  "use_span (Some ''t1'') (Some ''s1'')
      (\<lambda>c. (Some (Exception ''boom''), c\<lparr>ctx_ident := 1\<rparr>))
      \<lparr>ctx_ident = 0, ctx_vars = Map.empty\<rparr>
     = (Some ValueError,
        \<lparr>ctx_ident = 1,
         ctx_vars = [''spyglass_trace_id'' \<mapsto> Some ''t1'', ''spyglass_span_id'' \<mapsto> Some ''s1'']\<rparr>)
   \<and> Some ValueError \<noteq> Some (Exception ''boom'')"
  by (simp add: use_span_def use_span_enter_def use_span_exit_def ctx_defs)

text \<open>
  C10. \<^verbatim>\<open>set_trace_id\<close> leaves what \<^verbatim>\<open>get_span_id()\<close> returns unchanged, and so does
  every \<^verbatim>\<open>reset_trace_id\<close> that returns, as it does for a valid token (one that raises
  changes no variable at all); symmetrically for \<^verbatim>\<open>set_span_id\<close>,
  \<^verbatim>\<open>reset_span_id\<close> and \<^verbatim>\<open>get_trace_id()\<close>.
\<close>

theorem trace_span_slots_independent:
  "get_span_id (snd (set_trace_id v c)) = get_span_id c
   \<and> get_trace_id (snd (set_span_id v c)) = get_trace_id c
   \<and> (\<forall>c'. snd (reset_trace_id tok c) = Inr c' \<longrightarrow> get_span_id c' = get_span_id c)
   \<and> (\<forall>c'. snd (reset_span_id tok c) = Inr c' \<longrightarrow> get_trace_id c' = get_trace_id c)
   \<and> (valid_token TRACE_ID tok c \<longrightarrow> (\<exists>c'. snd (reset_trace_id tok c) = Inr c'))
   \<and> (valid_token SPAN_ID tok c \<longrightarrow> (\<exists>c'. snd (reset_span_id tok c) = Inr c'))"
proof -
  have 1: "get_span_id (snd (set_trace_id v c)) = get_span_id c"
    by (simp add: get_span_id_eq set_trace_id_def ContextVar_set_def)
  have 2: "get_trace_id (snd (set_span_id v c)) = get_trace_id c"
    by (simp add: get_trace_id_eq set_span_id_def ContextVar_set_def)
  have 3: "get_span_id c' = get_span_id c" if "snd (reset_trace_id tok c) = Inr c'" for c'
    using reset_other_var[of TRACE_ID tok c c' "''spyglass_span_id''"] that
    by (simp add: reset_trace_id_def get_span_id_eq)
  have 4: "get_trace_id c' = get_trace_id c" if "snd (reset_span_id tok c) = Inr c'" for c'
    using reset_other_var[of SPAN_ID tok c c' "''spyglass_trace_id''"] that
    by (simp add: reset_span_id_def get_trace_id_eq)
  have 5: "\<exists>c'. snd (reset_trace_id tok c) = Inr c'" if "valid_token TRACE_ID tok c"
    using that by (simp add: reset_trace_id_def valid_reset)
  have 6: "\<exists>c'. snd (reset_span_id tok c) = Inr c'" if "valid_token SPAN_ID tok c"
    using that by (simp add: reset_span_id_def valid_reset)
  show ?thesis using 1 2 3 4 5 6 by blast
qed

theorem trace_span_slots_independent_witness:
  "valid_token TRACE_ID
     \<lparr>tok_ctx = 0, tok_var = ''spyglass_trace_id'', tok_oldval = Some None, tok_used = False\<rparr>
     \<lparr>ctx_ident = 0, ctx_vars = [''spyglass_span_id'' \<mapsto> Some ''s0'']\<rparr>
   \<and> snd (reset_trace_id
     \<lparr>tok_ctx = 0, tok_var = ''spyglass_trace_id'', tok_oldval = Some None, tok_used = False\<rparr>
     \<lparr>ctx_ident = 0, ctx_vars = [''spyglass_span_id'' \<mapsto> Some ''s0'']\<rparr>)
     = Inr \<lparr>ctx_ident = 0, ctx_vars =
          [''spyglass_span_id'' \<mapsto> Some ''s0'', ''spyglass_trace_id'' \<mapsto> None]\<rparr>
   \<and> get_span_id \<lparr>ctx_ident = 0, ctx_vars =
          [''spyglass_span_id'' \<mapsto> Some ''s0'', ''spyglass_trace_id'' \<mapsto> None]\<rparr>
     = get_span_id \<lparr>ctx_ident = 0, ctx_vars = [''spyglass_span_id'' \<mapsto> Some ''s0'']\<rparr>"
proof -
  let ?tok = "\<lparr>tok_ctx = 0, tok_var = ''spyglass_trace_id'', tok_oldval = Some None, tok_used = False\<rparr>"
  let ?c = "\<lparr>ctx_ident = 0, ctx_vars = [''spyglass_span_id'' \<mapsto> Some ''s0'']\<rparr>"
  have v: "valid_token TRACE_ID ?tok ?c"
    by (simp add: valid_token_def TRACE_ID_def)
  have r: "snd (reset_trace_id ?tok ?c) = Inr \<lparr>ctx_ident = 0, ctx_vars =
          [''spyglass_span_id'' \<mapsto> Some ''s0'', ''spyglass_trace_id'' \<mapsto> None]\<rparr>"
    by (simp add: reset_trace_id_def ContextVar_reset_def TRACE_ID_def)
  from trace_span_slots_independent[of None ?c ?tok] v r show ?thesis
    by simp
qed

section \<open>Properties of the span-id generator\<close>

lemma hexdigit_alphabet:
  "map hexdigit [0, 1, 2, 3, 4, 5, 6, 7, 8, 9, 10, 11, 12, 13, 14, 15] = ''0123456789abcdef''"
  by (simp add: hexdigit_def char_of_def bit_0)

lemma digit_value_hexdigit: "d < 16 \<Longrightarrow> digit_value (hexdigit d) = Some d"
  by (simp add: digit_value_def hexdigit_def Let_def)

lemma length_hex_digits: "length (hex_digits w n) = w"
  by (induction w arbitrary: n) auto

lemma is_lower_hex_hexdigit: "d < 16 \<Longrightarrow> is_lower_hex (hexdigit d)"
  by (simp add: is_lower_hex_def hexdigit_def Let_def)

lemma hex_digits_lower: "list_all is_lower_hex (hex_digits w n)"
  by (induction w arbitrary: n) (auto simp: is_lower_hex_hexdigit)

lemma hex_value_acc_append:
  "hex_value_acc a (xs @ ys) =
     (case hex_value_acc a xs of None \<Rightarrow> None | Some b \<Rightarrow> hex_value_acc b ys)"
  by (induction xs arbitrary: a) (auto split: option.splits)

lemma hex_value_acc_hex_digits:
  "hex_value_acc a (hex_digits w n) = Some (a * 16 ^ w + n mod 16 ^ w)"
proof (induction w arbitrary: n)
  case 0
  show ?case by simp
next
  case (Suc w)
  have d: "digit_value (hexdigit (n mod 16)) = Some (n mod 16)"
    by (rule digit_value_hexdigit) simp
  have m: "n mod (16 * 16 ^ w) = 16 * (n div 16 mod 16 ^ w) + n mod 16"
    by (simp add: mod_mult2_eq)
  show ?case
    by (simp add: hex_value_acc_append Suc d m algebra_simps)
qed

lemma hex_value_hex_digits16:
  "n < 2 ^ 64 \<Longrightarrow> hex_value (hex_digits 16 n) = Some n"
proof -
  assume n: "n < 2 ^ 64"
  have "hex_digits 16 n \<noteq> []"
    using length_hex_digits[of 16 n] by auto
  moreover have "(16::nat) ^ 16 = 2 ^ 64" by simp
  ultimately show ?thesis
    using n by (simp add: hex_value_def hex_value_acc_hex_digits)
qed

lemma zeros_value: "hex_value (replicate 16 (CHR ''0'')) = Some 0"
  by (simp add: hex_value_def eval_nat_numeral digit_value_def)

text \<open>
  C6. For every 64-bit draw, \<^verbatim>\<open>span_id\<close> returns a string of exactly 16 characters
  that matches the test's pattern of lowercase hexadecimal digits, whose value read as a
  hexadecimal number is a 64-bit value and is not zero; so it is never the all-zero
  string.
\<close>

theorem span_id_format:
  "length (span_id r) = 16
   \<and> HEX16_match (span_id r)
   \<and> hex_value (span_id r) = Some (unat (if r = 0 then 1 else r))
   \<and> (\<exists>n. hex_value (span_id r) = Some n \<and> 0 < n \<and> n < 2 ^ 64)
   \<and> span_id r \<noteq> replicate 16 (CHR ''0'')"
proof -
  let ?v = "if r = 0 then 1 else r"
  have b: "unat ?v < 2 ^ 64"
    using unsigned_less[of ?v] by simp
  have nz: "0 < unat ?v"
    by (simp add: unat_gt_0)
  have v: "hex_value (span_id r) = Some (unat ?v)"
    unfolding span_id_def by (rule hex_value_hex_digits16[OF b])
  have "span_id r \<noteq> replicate 16 (CHR ''0'')"
    using v nz zeros_value by auto
  moreover have "HEX16_match (span_id r)"
    unfolding HEX16_match_def span_id_def
    by (simp only: length_hex_digits hex_digits_lower simp_thms)
  ultimately show ?thesis
    using v b nz by (simp add: span_id_def length_hex_digits)
qed

section \<open>Properties of the collector's bounded queue\<close>

lemma enqueue_fields [simp]:
  "queue_size (enqueue ev col) = queue_size col" "closed (enqueue ev col) = closed col"
  by (simp_all add: enqueue_def)

lemma apply_op_inv: "queue_inv col \<Longrightarrow> queue_inv (apply_op col op)"
  by (cases op) (auto simp: queue_inv_def enqueue_def flush_def close_def)

lemma run_inv: "queue_inv col \<Longrightarrow> queue_inv (foldl apply_op col ops)"
  by (induction ops arbitrary: col) (auto simp: apply_op_inv)

lemma apply_op_size [simp]: "queue_size (apply_op col op) = queue_size col"
  by (cases op) (auto simp: flush_def close_def)

lemma run_size [simp]: "queue_size (foldl apply_op col ops) = queue_size col"
  by (induction ops arbitrary: col) auto

lemma new_collector_inv: "new_collector n = Inr col \<Longrightarrow> queue_inv col \<and> queue_size col = nat n \<and> 0 < n"
  by (auto simp: new_collector_def queue_inv_def split: if_splits)

lemma enqueue_queue:
  assumes "queue_inv col" "\<not> closed col"
  shows "queue (enqueue ev col) =
         drop (length (queue col) + 1 - queue_size col) (queue col @ [ev])"
proof (cases "queue_size col \<le> length (queue col)")
  case True
  with assms have l: "length (queue col) = queue_size col" and ne: "queue col \<noteq> []"
    by (auto simp: queue_inv_def)
  from ne have "tl (queue col) @ [ev] = drop 1 (queue col @ [ev])"
    by (cases "queue col") auto
  with True assms(2) l show ?thesis by (simp add: enqueue_def)
next
  case False
  with assms(2) show ?thesis by (simp add: enqueue_def)
qed

lemma enqueue_all_queue:
  assumes "queue_inv col" "\<not> closed col"
  shows "queue (enqueue_all evs col) =
         drop (length (queue col) + length evs - queue_size col) (queue col @ evs)"
  using assms
proof (induction evs arbitrary: col)
  case Nil
  then show ?case by (simp add: enqueue_all_def queue_inv_def)
next
  case (Cons ev evs)
  let ?c = "enqueue ev col"
  have i: "queue_inv ?c" using apply_op_inv[OF Cons.prems(1), of "Enqueue ev"] by simp
  have o: "\<not> closed ?c" using Cons.prems(2) by simp
  have q: "queue ?c = drop (length (queue col) + 1 - queue_size col) (queue col @ [ev])"
    by (rule enqueue_queue[OF Cons.prems])
  have le: "length (queue col) + 1 - queue_size col \<le> length (queue col @ [ev])"
    by simp
  have "queue (enqueue_all (ev # evs) col) = queue (enqueue_all evs ?c)"
    by (simp add: enqueue_all_def)
  also have "\<dots> = drop (length (queue ?c) + length evs - queue_size col) (queue ?c @ evs)"
    using Cons.IH[OF i o] by simp
  also have "\<dots> = drop (length (queue col) + length (ev # evs) - queue_size col) (queue col @ ev # evs)"
    using Cons.prems(1) unfolding q queue_inv_def
    by (cases "queue_size col \<le> length (queue col)") (auto simp: drop_Cons' )
  finally show ?case .
qed

text \<open>
  C7. For a collector constructed with capacity \<open>n\<close> and any sequence of enqueues,
  flushes and closes, the queue never holds more than \<open>n\<close> events; an enqueue on the
  open collector with a full queue removes the oldest event and appends the new one; and
  after more than \<open>n\<close> enqueues in a row on the open collector, the queue, and so what the
  next flush drains, is exactly the last \<open>n\<close> of these events in their order.
\<close>

theorem bounded_queue_drop_oldest:
  assumes "new_collector n = Inr c0"
  shows "length (queue (foldl apply_op c0 ops)) \<le> nat n
       \<and> (\<not> closed (foldl apply_op c0 ops) \<and> length (queue (foldl apply_op c0 ops)) = nat n \<longrightarrow>
            queue (enqueue ev (foldl apply_op c0 ops)) = tl (queue (foldl apply_op c0 ops)) @ [ev])
       \<and> (\<not> closed (foldl apply_op c0 ops) \<and> nat n < length evs \<longrightarrow>
            queue (enqueue_all evs (foldl apply_op c0 ops)) = drop (length evs - nat n) evs
            \<and> length (queue (enqueue_all evs (foldl apply_op c0 ops))) = nat n
            \<and> fst (flush (enqueue_all evs (foldl apply_op c0 ops))) = drop (length evs - nat n) evs)"
proof -
  let ?c = "foldl apply_op c0 ops"
  note c0 = new_collector_inv[OF assms]
  have inv: "queue_inv ?c" using c0 by (simp add: run_inv)
  have sz: "queue_size ?c = nat n" using c0 by simp
  have 1: "length (queue ?c) \<le> nat n"
    using inv sz by (simp add: queue_inv_def)
  have 2: "queue (enqueue ev ?c) = tl (queue ?c) @ [ev]"
    if "\<not> closed ?c" "length (queue ?c) = nat n"
    using that sz by (simp add: enqueue_def)
  have 3: "queue (enqueue_all evs ?c) = drop (length evs - nat n) evs"
    if o: "\<not> closed ?c" and m: "nat n < length evs"
  proof -
    have "queue (enqueue_all evs ?c) =
        drop (length (queue ?c) + length evs - nat n) (queue ?c @ evs)"
      using enqueue_all_queue[OF inv o, of evs] sz by simp
    also have "\<dots> = drop (length evs - nat n) evs"
      using m by simp
    finally show ?thesis .
  qed
  have 4: "length (queue (enqueue_all evs ?c)) = nat n"
    if "\<not> closed ?c" "nat n < length evs"
    using 3[OF that] that(2) by simp
  show ?thesis
    using 1 2 3 4 by (simp add: flush_def)
qed

theorem bounded_queue_drop_oldest_witness:
  "new_collector 2 = Inr (\<lparr>queue_size = 2, queue = [], closed = False\<rparr> :: nat collector)
   \<and> queue (enqueue_all [2, 3, 4 :: nat]
        (foldl apply_op \<lparr>queue_size = 2, queue = [], closed = False\<rparr> [Enqueue 1]))
      = [3, 4]
   \<and> queue (enqueue (9 :: nat)
        (foldl apply_op \<lparr>queue_size = 2, queue = [], closed = False\<rparr> [Enqueue 1, Enqueue 2]))
      = [2, 9]"
proof -
  let ?c0 = "\<lparr>queue_size = 2, queue = [], closed = False\<rparr> :: nat collector"
  have n: "new_collector 2 = Inr ?c0"
    by (simp add: new_collector_def)
  have a: "\<not> closed (foldl apply_op ?c0 [Enqueue 1]) \<and> nat 2 < length [2, 3, 4 :: nat]"
    by (simp add: enqueue_def)
  have b: "\<not> closed (foldl apply_op ?c0 [Enqueue 1, Enqueue 2])
      \<and> length (queue (foldl apply_op ?c0 [Enqueue 1, Enqueue 2])) = nat 2"
    by (simp add: enqueue_def)
  have t: "tl (queue (foldl apply_op ?c0 [Enqueue 1, Enqueue 2])) = [2]"
    by (simp add: enqueue_def)
  from bounded_queue_drop_oldest[OF n, of "[Enqueue 1]" 9 "[2, 3, 4]"] a
       bounded_queue_drop_oldest[OF n, of "[Enqueue 1, Enqueue 2]" 9 "[]"] b t n
  show ?thesis by simp
qed

end
